theory Spec2Isabelle
  imports Complex_Main "HOL-Library.Multiset"
begin

section \<open>Values and errors\<close>

text \<open>
  The notebook \<^verbatim>\<open>src/03-linear-regression-reg_ML.ipynb\<close> works on Python floats.
  A float is modelled as a real number or one of the three IEEE special values; the
  finite part is idealised (no rounding, no overflow). Input targets, predictions and
  coefficients are finite, so they are plain reals: scikit-learn rejects NaN and
  infinite inputs with a ValueError before any metric is computed.
\<close>

datatype error = ValueError | KeyError | IndexError | NameError | OSError

datatype pyfloat = Fin real | PInf | NInf | NaN

text \<open>Python's \<^verbatim>\<open>a - b\<close> on floats.\<close>

fun fsub :: "pyfloat \<Rightarrow> pyfloat \<Rightarrow> pyfloat" where
  "fsub (Fin a) (Fin b) = Fin (a - b)"
| "fsub NaN _ = NaN"
| "fsub _ NaN = NaN"
| "fsub PInf PInf = NaN"
| "fsub NInf NInf = NaN"
| "fsub PInf _ = PInf"
| "fsub NInf _ = NInf"
| "fsub (Fin a) PInf = NInf"
| "fsub (Fin a) NInf = PInf"

text \<open>Python's \<^verbatim>\<open>a > b\<close> on floats: every comparison with NaN is false.\<close>

fun fgt :: "pyfloat \<Rightarrow> pyfloat \<Rightarrow> bool" where
  "fgt (Fin a) (Fin b) = (a > b)"
| "fgt NaN _ = False"
| "fgt _ NaN = False"
| "fgt PInf PInf = False"
| "fgt PInf _ = True"
| "fgt NInf _ = False"
| "fgt (Fin a) NInf = True"
| "fgt (Fin a) PInf = False"

section \<open>The metric routine\<close>

text \<open>
  The three scikit-learn metrics the notebook calls, by their documented definitions.
  Each of them first checks its two arguments: different lengths, or no sample at all,
  is a ValueError.
\<close>

definition check_reg_targets :: "real list \<Rightarrow> real list \<Rightarrow> error + unit" where
  "check_reg_targets y_true y_pred =
     (if length y_true \<noteq> length y_pred then Inl ValueError
      else if y_true = [] then Inl ValueError
      else Inr ())"

definition sq_errors :: "real list \<Rightarrow> real list \<Rightarrow> real list" where
  "sq_errors y_true y_pred = map (\<lambda>(t, p). (t - p)\<^sup>2) (zip y_true y_pred)"

definition abs_errors :: "real list \<Rightarrow> real list \<Rightarrow> real list" where
  "abs_errors y_true y_pred = map (\<lambda>(t, p). \<bar>t - p\<bar>) (zip y_true y_pred)"

definition average :: "real list \<Rightarrow> real" where
  "average xs = sum_list xs / real (length xs)"

definition mean_squared_error :: "real list \<Rightarrow> real list \<Rightarrow> error + real" where
  "mean_squared_error y_true y_pred =
     (case check_reg_targets y_true y_pred of
        Inl e \<Rightarrow> Inl e
      | Inr _ \<Rightarrow> Inr (average (sq_errors y_true y_pred)))"

definition mean_absolute_error :: "real list \<Rightarrow> real list \<Rightarrow> error + real" where
  "mean_absolute_error y_true y_pred =
     (case check_reg_targets y_true y_pred of
        Inl e \<Rightarrow> Inl e
      | Inr _ \<Rightarrow> Inr (average (abs_errors y_true y_pred)))"

text \<open>
  \<^verbatim>\<open>r2_score\<close>: with fewer than two samples the score is not defined and the
  library returns NaN (with a warning, which the notebook suppresses). Otherwise it is
  one minus the ratio of the residual sum of squares to the total sum of squares; when
  the total sum of squares is zero (a constant target) the score is 1.0 for a perfect
  prediction and 0.0 for an imperfect one.
\<close>

definition r2_score :: "real list \<Rightarrow> real list \<Rightarrow> error + pyfloat" where
  "r2_score y_true y_pred =
     (case check_reg_targets y_true y_pred of
        Inl e \<Rightarrow> Inl e
      | Inr _ \<Rightarrow>
          if length y_pred < 2 then Inr NaN
          else
            (let numerator = sum_list (sq_errors y_true y_pred);
                 denominator = sum_list (map (\<lambda>t. (t - average y_true)\<^sup>2) y_true)
             in if denominator \<noteq> 0 then Inr (Fin (1 - numerator / denominator))
                else if numerator \<noteq> 0 then Inr (Fin 0)
                else Inr (Fin 1)))"

record metric_bundle =
  R2 :: pyfloat
  RMSE :: pyfloat
  MAE :: pyfloat
  MAPE :: pyfloat

text \<open>
  \<^verbatim>\<open>calculate_metrics(y_true, y_pred)\<close>. The MAPE line is an array expression of
  NumPy and pandas, \<^verbatim>\<open>np.mean(np.abs((y_true - y_pred) / y_true)) * 100\<close>. It is
  passed in as \<open>mape\<close>; the notebook's own line is \<open>mape_line\<close> below, and the routine
  of the notebook is \<open>calculate_metrics mape_line\<close>. The line has no guard and no
  handler around it.
\<close>

definition calculate_metrics ::
  "(real list \<Rightarrow> real list \<Rightarrow> pyfloat) \<Rightarrow> real list \<Rightarrow> real list \<Rightarrow> error + metric_bundle" where
  "calculate_metrics mape y_true y_pred =
     (case mean_squared_error y_true y_pred of
        Inl e \<Rightarrow> Inl e
      | Inr mse \<Rightarrow>
          (let rmse = sqrt mse in
           case mean_absolute_error y_true y_pred of
             Inl e \<Rightarrow> Inl e
           | Inr mae \<Rightarrow>
               (case r2_score y_true y_pred of
                  Inl e \<Rightarrow> Inl e
                | Inr r2 \<Rightarrow>
                    Inr \<lparr>R2 = r2, RMSE = Fin rmse, MAE = Fin mae,
                         MAPE = mape y_true y_pred\<rparr>)))"

section \<open>The MAPE line\<close>

text \<open>
  Elementwise division of float arrays raises nothing: a nonzero value over zero is an
  infinity, zero over zero is NaN (NumPy at most warns, and the notebook has switched
  warnings off). The model has no signed zero, so the infinity takes the sign of the
  numerator; the absolute value that follows removes the sign in any case.
\<close>

definition np_divide :: "real \<Rightarrow> real \<Rightarrow> pyfloat" where
  "np_divide x y =
     (if y \<noteq> 0 then Fin (x / y)
      else if x = 0 then NaN
      else if 0 < x then PInf
      else NInf)"

fun np_abs :: "pyfloat \<Rightarrow> pyfloat" where
  "np_abs (Fin x) = Fin \<bar>x\<bar>"
| "np_abs PInf = PInf"
| "np_abs NInf = PInf"
| "np_abs NaN = NaN"

text \<open>Float addition, and a float divided or multiplied by a positive number.\<close>

fun fadd :: "pyfloat \<Rightarrow> pyfloat \<Rightarrow> pyfloat" where
  "fadd (Fin a) (Fin b) = Fin (a + b)"
| "fadd NaN _ = NaN"
| "fadd _ NaN = NaN"
| "fadd PInf NInf = NaN"
| "fadd NInf PInf = NaN"
| "fadd PInf _ = PInf"
| "fadd NInf _ = NInf"
| "fadd (Fin a) PInf = PInf"
| "fadd (Fin a) NInf = NInf"

fun fscale :: "pyfloat \<Rightarrow> real \<Rightarrow> pyfloat" where
  "fscale (Fin a) c = Fin (a * c)"
| "fscale PInf c = PInf"
| "fscale NInf c = NInf"
| "fscale NaN c = NaN"

text \<open>
  \<^verbatim>\<open>y_true\<close> is a pandas Series (\<^verbatim>\<open>pd.read_csv(...).squeeze()\<close>), so the quotient and
  its absolute value are Series, and \<^verbatim>\<open>np.mean\<close> of a Series is the Series' own
  \<^verbatim>\<open>mean\<close>, which leaves NaN entries out: the sum of the other entries over their
  number, and NaN when no entry is left. Infinite entries are not left out.
\<close>

definition series_mean :: "pyfloat list \<Rightarrow> pyfloat" where
  "series_mean xs =
     (let vals = filter (\<lambda>x. x \<noteq> NaN) xs
      in if vals = [] then NaN
         else fscale (foldr fadd vals (Fin 0)) (1 / real (length vals)))"

definition mape_line :: "real list \<Rightarrow> real list \<Rightarrow> pyfloat" where
  "mape_line y_true y_pred =
     fscale (series_mean (map (\<lambda>(t, p). np_abs (np_divide (t - p) t)) (zip y_true y_pred)))
       100"

section \<open>Dictionaries\<close>

text \<open>
  A Python dict keeps insertion order: assigning to a key that is present replaces its
  value in place, assigning to a new key appends it. Reading a missing key is a KeyError.
\<close>

fun dict_set :: "('k \<times> 'v) list \<Rightarrow> 'k \<Rightarrow> 'v \<Rightarrow> ('k \<times> 'v) list" where
  "dict_set [] k v = [(k, v)]"
| "dict_set ((k', v') # d) k v =
     (if k' = k then (k, v) # d else (k', v') # dict_set d k v)"

definition dict_get :: "('k \<times> 'v) list \<Rightarrow> 'k \<Rightarrow> error + 'v" where
  "dict_get d k = (case map_of d k of None \<Rightarrow> Inl KeyError | Some v \<Rightarrow> Inr v)"

definition keys :: "('k \<times> 'v) list \<Rightarrow> 'k list" where
  "keys d = map fst d"

section \<open>The comparison cell\<close>

type_synonym matrix = "real list list"

text \<open>The four estimators of the \<^verbatim>\<open>models\<close> dict, with their constructor arguments.\<close>

datatype estimator =
    LinearRegression
  | Ridge real
  | Lasso real
  | ElasticNet real real

definition initial_models :: "(string \<times> estimator) list" where
  "initial_models =
     [(''Linear Regression'', LinearRegression),
      (''Ridge'', Ridge 1),
      (''Lasso'', Lasso 1),
      (''ElasticNet'', ElasticNet 1 (1 / 2))]"

record model_result =
  Train_R2 :: pyfloat
  Test_R2 :: pyfloat
  Test_RMSE :: pyfloat
  Test_MAE :: pyfloat
  Overfitting :: pyfloat

text \<open>
  \<open>'m\<close> is the type of estimator objects. \<^verbatim>\<open>fit\<close> and \<^verbatim>\<open>predict\<close> are the
  library's and are parameters of the model. They receive the notebook's arrays by
  reference, so each call also returns the arrays as it leaves them: \<open>fit m X y\<close> is
  the fitted object or the library's fault, with \<open>X\<close> and \<open>y\<close> after the call, and
  \<open>predict m X\<close> is the prediction vector, with \<open>X\<close> after the call. \<^verbatim>\<open>model.fit\<close>
  changes the object the dict holds, which is written here as storing the fitted object
  under the same key.
\<close>

type_synonym 'm fit_fn = "'m \<Rightarrow> matrix \<Rightarrow> real list \<Rightarrow> (error + 'm) \<times> matrix \<times> real list"

type_synonym 'm predict_fn = "'m \<Rightarrow> matrix \<Rightarrow> real list \<times> matrix"

text \<open>
  The estimators of the notebook are built with the library's default \<^verbatim>\<open>copy_X=True\<close>:
  they work on copies and leave the arrays they are given as they are.
\<close>

definition keeps_arguments :: "'m fit_fn \<Rightarrow> 'm predict_fn \<Rightarrow> bool" where
  "keeps_arguments fit predict \<longleftrightarrow>
     (\<forall>m X y. snd (fit m X y) = (X, y)) \<and> (\<forall>m X. snd (predict m X) = X)"

text \<open>
  A file is empty (just created or truncated by \<^verbatim>\<open>open(..., 'wb')\<close>) or holds a
  pickled estimator.
\<close>

datatype 'm file_content = Empty_File | Pickled 'm

text \<open>
  The variables of the notebook and the file system: \<open>files\<close> maps a path to what the
  file holds, and \<open>can_open p\<close> says whether the system lets \<open>p\<close> be opened for
  writing (its directory exists and may be written).
\<close>

record 'm notebook =
  X_train :: matrix
  y_train :: "real list"
  X_test :: matrix
  y_test :: "real list"
  models :: "(string \<times> 'm) list"
  results :: "(string \<times> model_result) list"
  predictions :: "(string \<times> real list) list"
  best_model_name :: "string option"
  best_model :: "'m option"
  files :: "string \<rightharpoonup> 'm file_content"
  can_open :: "string \<Rightarrow> bool"

text \<open>
  One pass of the body of \<^verbatim>\<open>for name, model in models.items()\<close>. An exception leaves
  the loop at once; the state reached so far is returned with it.
\<close>

definition evaluate_model ::
  "'m fit_fn \<Rightarrow> 'm predict_fn \<Rightarrow> (real list \<Rightarrow> real list \<Rightarrow> pyfloat) \<Rightarrow>
   'm notebook \<Rightarrow> string \<Rightarrow> 'm \<Rightarrow> 'm notebook \<times> error option" where
  "evaluate_model fit predict mape s name model =
     (case fit model (X_train s) (y_train s) of
        (outcome, X1, y1) \<Rightarrow>
          (let s0 = s\<lparr>X_train := X1, y_train := y1\<rparr>
           in case outcome of
                Inl e \<Rightarrow> (s0, Some e)
              | Inr fitted \<Rightarrow>
                  (case predict fitted (X_train s0) of
                     (y_train_pred, X2) \<Rightarrow>
                       (case predict fitted (X_test s0) of
                          (y_test_pred, X3) \<Rightarrow>
                            (let s1 = s0\<lparr>X_train := X2, X_test := X3,
                                         models := dict_set (models s0) name fitted\<rparr>;
                                 s2 = s1\<lparr>predictions :=
                                           dict_set (predictions s1) name y_test_pred\<rparr>
                             in case calculate_metrics mape (y_train s2) y_train_pred of
                                  Inl e \<Rightarrow> (s2, Some e)
                                | Inr train_metrics \<Rightarrow>
                                    (case calculate_metrics mape (y_test s2) y_test_pred of
                                       Inl e \<Rightarrow> (s2, Some e)
                                     | Inr test_metrics \<Rightarrow>
                                         (s2\<lparr>results := dict_set (results s2) name
                                               \<lparr>Train_R2 = R2 train_metrics,
                                                Test_R2 = R2 test_metrics,
                                                Test_RMSE = RMSE test_metrics,
                                                Test_MAE = MAE test_metrics,
                                                Overfitting =
                                                  fsub (R2 train_metrics) (R2 test_metrics)\<rparr>\<rparr>,
                                          None)))))))"

fun train_and_evaluate ::
  "'m fit_fn \<Rightarrow> 'm predict_fn \<Rightarrow> (real list \<Rightarrow> real list \<Rightarrow> pyfloat) \<Rightarrow>
   'm notebook \<Rightarrow> (string \<times> 'm) list \<Rightarrow> 'm notebook \<times> error option" where
  "train_and_evaluate fit predict mape s [] = (s, None)"
| "train_and_evaluate fit predict mape s ((name, model) # rest) =
     (case evaluate_model fit predict mape s name model of
        (s', Some e) \<Rightarrow> (s', Some e)
      | (s', None) \<Rightarrow> train_and_evaluate fit predict mape s' rest)"

text \<open>
  Python's \<^verbatim>\<open>max(iterable, key=f)\<close>: the first item is the candidate, and a later
  item replaces it only when its key compares greater (\<^verbatim>\<open>>\<close>) than the candidate's.
  An empty iterable is a ValueError; an exception of the key function is passed on.
\<close>

fun max_loop :: "('a \<Rightarrow> error + pyfloat) \<Rightarrow> 'a \<Rightarrow> pyfloat \<Rightarrow> 'a list \<Rightarrow> error + 'a" where
  "max_loop key maxitem maxval [] = Inr maxitem"
| "max_loop key maxitem maxval (item # rest) =
     (case key item of
        Inl e \<Rightarrow> Inl e
      | Inr val \<Rightarrow>
          if fgt val maxval then max_loop key item val rest
          else max_loop key maxitem maxval rest)"

definition py_max :: "('a \<Rightarrow> error + pyfloat) \<Rightarrow> 'a list \<Rightarrow> error + 'a" where
  "py_max key xs =
     (case xs of
        [] \<Rightarrow> Inl ValueError
      | item # rest \<Rightarrow>
          (case key item of
             Inl e \<Rightarrow> Inl e
           | Inr val \<Rightarrow> max_loop key item val rest))"

text \<open>\<^verbatim>\<open>max(results.keys(), key=lambda k: results[k]['Test R2'])\<close>\<close>

definition find_best_model :: "(string \<times> model_result) list \<Rightarrow> error + string" where
  "find_best_model res =
     py_max (\<lambda>k. case dict_get res k of Inl e \<Rightarrow> Inl e | Inr r \<Rightarrow> Inr (Test_R2 r))
       (keys res)"

text \<open>
  The whole comparison cell: build the dict of estimators (\<open>new_model\<close> makes the
  library object of an \<^typ>\<open>estimator\<close>), empty the two result dicts, run the loop,
  pick the winner and keep its object. The console table it prints is a rendering of
  \<open>results\<close> and is not part of the state.
\<close>

definition compare_cell ::
  "'m fit_fn \<Rightarrow> 'm predict_fn \<Rightarrow> (real list \<Rightarrow> real list \<Rightarrow> pyfloat) \<Rightarrow>
   (estimator \<Rightarrow> 'm) \<Rightarrow> 'm notebook \<Rightarrow> 'm notebook \<times> error option" where
  "compare_cell fit predict mape new_model s =
     (let s0 = s\<lparr>models := map (\<lambda>(name, e). (name, new_model e)) initial_models,
                 results := [], predictions := []\<rparr>
      in case train_and_evaluate fit predict mape s0 (models s0) of
           (s1, Some e) \<Rightarrow> (s1, Some e)
         | (s1, None) \<Rightarrow>
             (case find_best_model (results s1) of
                Inl e \<Rightarrow> (s1, Some e)
              | Inr name \<Rightarrow>
                  (let s2 = s1\<lparr>best_model_name := Some name\<rparr>
                   in case dict_get (models s2) name of
                        Inl e \<Rightarrow> (s2, Some e)
                      | Inr m \<Rightarrow> (s2\<lparr>best_model := Some m\<rparr>, None))))"

section \<open>The saving cell\<close>

definition model_path :: string where
  "model_path = ''../models/Linear_regressions_models/heart_disease_linear_regression.pkl''"

text \<open>
  \<^verbatim>\<open>with open(model_path, 'wb') as f: pickle.dump(best_model, f)\<close>. The file is
  opened first: where the system refuses, that is an OSError and nothing has changed;
  otherwise the file now exists and is empty. Then \<^verbatim>\<open>best_model\<close> is read, a
  NameError if the comparison cell has not set it, which leaves the empty file behind.
  Then the object is written.
\<close>

definition save_cell :: "'m notebook \<Rightarrow> 'm notebook \<times> error option" where
  "save_cell s =
     (if \<not> can_open s model_path then (s, Some OSError)
      else
        (let s1 = s\<lparr>files := (files s)(model_path \<mapsto> Empty_File)\<rparr>
         in case best_model s1 of
              None \<Rightarrow> (s1, Some NameError)
            | Some m \<Rightarrow> (s1\<lparr>files := (files s1)(model_path \<mapsto> Pickled m)\<rparr>, None)))"

section \<open>The feature-importance cell\<close>

text \<open>
  \<^verbatim>\<open>pd.DataFrame({'Feature': ..., 'Coefficient': ..., 'Abs_Coefficient': ...})\<close>: one
  row per feature, in feature order; columns of different lengths are a ValueError.
\<close>

record importance_row =
  Feature :: string
  Coefficient :: real
  Abs_Coefficient :: real

definition data_frame :: "string list \<Rightarrow> real list \<Rightarrow> error + importance_row list" where
  "data_frame feature_names coefficients =
     (if length feature_names \<noteq> length coefficients then Inl ValueError
      else Inr (map (\<lambda>(n, c). \<lparr>Feature = n, Coefficient = c, Abs_Coefficient = \<bar>c\<bar>\<rparr>)
                  (zip feature_names coefficients)))"

text \<open>
  \<^verbatim>\<open>.sort_values('Abs_Coefficient', ascending=False)\<close> is the library's, called with
  its default sorting algorithm; it is a parameter \<open>sort_values\<close> of the model. What
  the call promises is \<open>sorts_descending\<close>: the same rows, in descending order of the
  key column. The library promises an order among rows of equal key only for the
  algorithms \<^verbatim>\<open>'stable'\<close> and \<^verbatim>\<open>'mergesort'\<close>, which the notebook does not ask for.
\<close>

definition sorts_descending :: "(importance_row list \<Rightarrow> importance_row list) \<Rightarrow> bool" where
  "sorts_descending sort_values \<longleftrightarrow>
     (\<forall>rows. mset (sort_values rows) = mset rows \<and>
             sorted_wrt (\<lambda>a b. Abs_Coefficient a \<ge> Abs_Coefficient b) (sort_values rows))"

definition feature_importance ::
  "(importance_row list \<Rightarrow> importance_row list) \<Rightarrow> string list \<Rightarrow> real list \<Rightarrow>
   error + importance_row list" where
  "feature_importance sort_values feature_names coefficients =
     (case data_frame feature_names coefficients of
        Inl e \<Rightarrow> Inl e
      | Inr df \<Rightarrow> Inr (sort_values df))"

text \<open>\<^verbatim>\<open>.iloc[0]\<close>: the first row; on an empty frame an IndexError.\<close>

definition iloc0 :: "'a list \<Rightarrow> error + 'a" where
  "iloc0 rows = (case rows of [] \<Rightarrow> Inl IndexError | r # _ \<Rightarrow> Inr r)"

text \<open>Python's \<^verbatim>\<open>sum\<close> over an array of booleans counts the true entries.\<close>

definition count_true :: "bool list \<Rightarrow> nat" where
  "count_true bs = sum_list (map (\<lambda>b. if b then 1 else 0) bs)"

text \<open>
  What the cell prints, as a record: the top ten rows, the four counts, and the two
  ``strongest predictor'' lines, each present only if its \<^verbatim>\<open>if\<close> lets it print.
\<close>

record model_summary =
  top10 :: "(string \<times> real) list"
  total_features :: nat
  nonzero_features :: nat
  positive_impact :: nat
  negative_impact :: nat
  strongest_positive :: "(string \<times> real) option"
  strongest_negative :: "(string \<times> real) option"

definition feature_cell ::
  "(importance_row list \<Rightarrow> importance_row list) \<Rightarrow> string list \<Rightarrow> real list \<Rightarrow>
   error + model_summary" where
  "feature_cell sort_values feature_names coefficients =
     (case feature_importance sort_values feature_names coefficients of
        Inl e \<Rightarrow> Inl e
      | Inr fi \<Rightarrow>
          (let out = \<lparr>top10 = map (\<lambda>r. (Feature r, Coefficient r)) (take 10 fi),
                      total_features = length feature_names,
                      nonzero_features = count_true (map (\<lambda>c. \<bar>c\<bar> > 1 / 1000000) coefficients),
                      positive_impact = count_true (map (\<lambda>c. c > 0) coefficients),
                      negative_impact = count_true (map (\<lambda>c. c < 0) coefficients),
                      strongest_positive = None,
                      strongest_negative = None\<rparr>
           in if length fi > 0 then
                (case iloc0 fi of
                   Inl e \<Rightarrow> Inl e
                 | Inr first_row \<Rightarrow>
                     (let out1 = out\<lparr>strongest_positive := Some (Feature first_row, Coefficient first_row)\<rparr>;
                          negative_features = filter (\<lambda>r. Coefficient r < 0) fi
                      in if length negative_features > 0 then
                           (case iloc0 negative_features of
                              Inl e \<Rightarrow> Inl e
                            | Inr neg \<Rightarrow>
                                Inr (out1\<lparr>strongest_negative :=
                                            Some (Feature neg, Coefficient neg)\<rparr>))
                         else Inr out1))
              else Inr out))"

text \<open>
  A sorting function that meets \<open>sorts_descending\<close>: an insertion sort that keeps rows
  of equal key in their order.
\<close>

fun insert_desc :: "importance_row \<Rightarrow> importance_row list \<Rightarrow> importance_row list" where
  "insert_desc r [] = [r]"
| "insert_desc r (x # xs) =
     (if Abs_Coefficient x > Abs_Coefficient r then x # insert_desc r xs else r # x # xs)"

definition stable_sort_values :: "importance_row list \<Rightarrow> importance_row list" where
  "stable_sort_values rows = foldr insert_desc rows []"

section \<open>Auxiliary notions for the proofs\<close>

text \<open>
  \<open>wins f best b ys w\<close>: scanning \<open>ys\<close> with candidate \<open>best\<close> of key \<open>b\<close>, the
  item \<open>w\<close> is the one a first-maximum scan ends with: either the candidate survives
  because nothing in \<open>ys\<close> exceeds it, or \<open>w\<close> is the first item of \<open>ys\<close> that exceeds
  the candidate and everything before it, and nothing after it exceeds \<open>w\<close>.
\<close>

definition wins :: "('a \<Rightarrow> real) \<Rightarrow> 'a \<Rightarrow> real \<Rightarrow> 'a list \<Rightarrow> 'a \<Rightarrow> bool" where
  "wins f best b ys w \<longleftrightarrow>
     (w = best \<and> (\<forall>y \<in> set ys. f y \<le> b)) \<or>
      (\<exists>pre post. ys = pre @ w # post \<and> b < f w \<and> (\<forall>y \<in> set pre. f y < f w) \<and>
           (\<forall>y \<in> set post. f y \<le> f w))"

text \<open>A results dict in which two estimators share the largest test score.\<close>

definition tied_results :: "(string \<times> model_result) list" where
  "tied_results =
     [(''Linear Regression'',
        \<lparr>Train_R2 = Fin 1, Test_R2 = Fin (1 / 2), Test_RMSE = Fin 1, Test_MAE = Fin 1,
         Overfitting = Fin (1 / 2)\<rparr>),
      (''Ridge'',
        \<lparr>Train_R2 = Fin 1, Test_R2 = Fin (3 / 4), Test_RMSE = Fin 1, Test_MAE = Fin 1,
         Overfitting = Fin (1 / 4)\<rparr>),
      (''Lasso'',
        \<lparr>Train_R2 = Fin 1, Test_R2 = Fin (3 / 4), Test_RMSE = Fin 1, Test_MAE = Fin 1,
         Overfitting = Fin (1 / 4)\<rparr>)]"

text \<open>
  The four results of the notebook's stored run, from its printed table (test score,
  test RMSE, overfitting; the training score is their sum). The table does not print the
  MAE, so the records carry a stand-in for it.
\<close>

definition reported_results :: "(string \<times> model_result) list" where
  "reported_results =
     [(''Linear Regression'',
        \<lparr>Train_R2 = Fin (9698 / 10000), Test_R2 = Fin (9668 / 10000),
         Test_RMSE = Fin (3271 / 10000), Test_MAE = Fin (1 / 4),
         Overfitting = Fin (30 / 10000)\<rparr>),
      (''Ridge'',
        \<lparr>Train_R2 = Fin (9697 / 10000), Test_R2 = Fin (9672 / 10000),
         Test_RMSE = Fin (3251 / 10000), Test_MAE = Fin (1 / 4),
         Overfitting = Fin (25 / 10000)\<rparr>),
      (''Lasso'',
        \<lparr>Train_R2 = Fin (5351 / 10000), Test_R2 = Fin (5398 / 10000),
         Test_RMSE = Fin (12184 / 10000), Test_MAE = Fin 1,
         Overfitting = Fin (- 47 / 10000)\<rparr>),
      (''ElasticNet'',
        \<lparr>Train_R2 = Fin (7661 / 10000), Test_R2 = Fin (7694 / 10000),
         Test_RMSE = Fin (8626 / 10000), Test_MAE = Fin (3 / 4),
         Overfitting = Fin (- 33 / 10000)\<rparr>)]"


section \<open>A small run\<close>

text \<open>
  A stand-in for the library, to run the cells on: fitting keeps the estimator as it is,
  the prediction for a row is the sum of its entries, and neither touches its arrays.
  The example partitions have two rows each; the training predictions miss one target,
  the test predictions hit both. Every path may be opened for writing.
\<close>

definition example_fit :: "estimator fit_fn" where
  "example_fit m X y = (Inr m, X, y)"

definition example_predict :: "estimator predict_fn" where
  "example_predict m X = (map sum_list X, X)"

text \<open>A fit that empties the matrix it is given, as a library call working in place might.\<close>

definition clearing_fit :: "estimator fit_fn" where
  "clearing_fit m X y = (Inr m, [], y)"

definition example_notebook :: "estimator notebook" where
  "example_notebook =
     \<lparr>X_train = [[1], [2]], y_train = [1, 3], X_test = [[1], [3]], y_test = [1, 3],
      models = [], results = [], predictions = [], best_model_name = None,
      best_model = None, files = Map.empty, can_open = (\<lambda>p. True)\<rparr>"

section \<open>Perfect predictions\<close>

lemma sq_errors_self: "sum_list (sq_errors ys ys) = 0"
  by (induction ys) (simp_all add: sq_errors_def)

lemma abs_errors_self: "sum_list (abs_errors ys ys) = 0"
  by (induction ys) (simp_all add: abs_errors_def)

lemma r2_score_self:
  "2 \<le> length ys \<Longrightarrow> r2_score ys ys = Inr (Fin 1)"
  by (auto simp: r2_score_def check_reg_targets_def Let_def sq_errors_self)

lemma mean_squared_error_self: "ys \<noteq> [] \<Longrightarrow> mean_squared_error ys ys = Inr 0"
  by (simp add: mean_squared_error_def check_reg_targets_def average_def sq_errors_self)

lemma mean_absolute_error_self: "ys \<noteq> [] \<Longrightarrow> mean_absolute_error ys ys = Inr 0"
  by (simp add: mean_absolute_error_def check_reg_targets_def average_def abs_errors_self)

text \<open>
  The routine raises only what the library's argument checks raise. On arguments that
  pass them it returns a bundle, and the bundle's MAPE is whatever the MAPE expression
  evaluated to.
\<close>

lemma calculate_metrics_returns:
  assumes "length y_true = length y_pred" "y_true \<noteq> []"
  shows "\<exists>b. calculate_metrics mape y_true y_pred = Inr b \<and> MAPE b = mape y_true y_pred"
  using assms
  by (simp add: calculate_metrics_def mean_squared_error_def mean_absolute_error_def
      r2_score_def check_reg_targets_def Let_def)

text \<open>
  Claim C6, as amended. When the predictions equal the targets and there are at least
  two rows, \<^verbatim>\<open>calculate_metrics\<close> returns a bundle with R2 = 1, RMSE = 0 and
  MAE = 0, also for a constant target.
\<close>

theorem calculate_metrics_perfect:
  assumes "2 \<le> length ys"
  shows "calculate_metrics mape ys ys =
           Inr \<lparr>R2 = Fin 1, RMSE = Fin 0, MAE = Fin 0, MAPE = mape ys ys\<rparr>"
proof -
  from assms have ne: "ys \<noteq> []" by auto
  show ?thesis
    by (simp add: calculate_metrics_def mean_squared_error_self[OF ne]
        mean_absolute_error_self[OF ne] r2_score_self[OF assms])
qed

theorem calculate_metrics_perfect_witness:
  "calculate_metrics (\<lambda>t p. Fin 0) [3, 3] [3, 3] =
     Inr \<lparr>R2 = Fin 1, RMSE = Fin 0, MAE = Fin 0, MAPE = Fin 0\<rparr>"
  using calculate_metrics_perfect[of "[3, 3]" "\<lambda>t p. Fin 0"] by simp

text \<open>
  Claim C6 as stated fails on a single row: a one-row partition predicted perfectly has
  RMSE = 0 and MAE = 0, but its R2 is NaN, not 1.
\<close>

theorem calculate_metrics_perfect_single_row:
  "calculate_metrics (\<lambda>t p. Fin 0) [5] [5] =
     Inr \<lparr>R2 = NaN, RMSE = Fin 0, MAE = Fin 0, MAPE = Fin 0\<rparr> \<and> NaN \<noteq> Fin 1"
  by (simp add: calculate_metrics_def mean_squared_error_def mean_absolute_error_def
      r2_score_def check_reg_targets_def average_def sq_errors_def abs_errors_def)

section \<open>The MAPE on zero targets\<close>










section \<open>The selection rule\<close>

lemma wins_keep: "\<not> b < f y \<Longrightarrow> wins f best b ys w \<Longrightarrow> wins f best b (y # ys) w"
  unfolding wins_def
proof (elim disjE exE conjE)
  assume "\<not> b < f y" "w = best" "\<forall>y \<in> set ys. f y \<le> b"
  then show "(w = best \<and> (\<forall>z \<in> set (y # ys). f z \<le> b)) \<or>
      (\<exists>pre post. y # ys = pre @ w # post \<and> b < f w \<and> (\<forall>y \<in> set pre. f y < f w) \<and>
           (\<forall>y \<in> set post. f y \<le> f w))" by simp
next
  fix pre post
  assume a: "\<not> b < f y" "ys = pre @ w # post" "b < f w" "\<forall>y \<in> set pre. f y < f w"
    "\<forall>y \<in> set post. f y \<le> f w"
  have 1: "y # ys = (y # pre) @ w # post" using a(2) by simp
  have 2: "\<forall>z \<in> set (y # pre). f z < f w" using a(1,3,4) by simp
  from 1 2 a(3,5) show "(w = best \<and> (\<forall>z \<in> set (y # ys). f z \<le> b)) \<or>
      (\<exists>pre post. y # ys = pre @ w # post \<and> b < f w \<and> (\<forall>y \<in> set pre. f y < f w) \<and>
           (\<forall>y \<in> set post. f y \<le> f w))" by blast
qed

lemma wins_replace: "b < f y \<Longrightarrow> wins f y (f y) ys w \<Longrightarrow> wins f best b (y # ys) w"
  unfolding wins_def
proof (elim disjE exE conjE)
  assume a: "b < f y" "w = y" "\<forall>z \<in> set ys. f z \<le> f y"
  have 1: "y # ys = [] @ w # ys" using a(2) by simp
  have 2: "\<forall>z \<in> set []. f z < f w" by simp
  have 3: "b < f w" using a by simp
  have 4: "\<forall>z \<in> set ys. f z \<le> f w" using a by simp
  from 1 2 3 4 show "(w = best \<and> (\<forall>z \<in> set (y # ys). f z \<le> b)) \<or>
      (\<exists>pre post. y # ys = pre @ w # post \<and> b < f w \<and> (\<forall>y \<in> set pre. f y < f w) \<and>
           (\<forall>y \<in> set post. f y \<le> f w))" by blast
next
  fix pre post
  assume a: "b < f y" "ys = pre @ w # post" "f y < f w" "\<forall>y \<in> set pre. f y < f w"
    "\<forall>y \<in> set post. f y \<le> f w"
  have 1: "y # ys = (y # pre) @ w # post" using a(2) by simp
  have 2: "\<forall>z \<in> set (y # pre). f z < f w" using a(3,4) by simp
  have 3: "b < f w" using a(1,3) by simp
  from 1 2 3 a(5) show "(w = best \<and> (\<forall>z \<in> set (y # ys). f z \<le> b)) \<or>
      (\<exists>pre post. y # ys = pre @ w # post \<and> b < f w \<and> (\<forall>y \<in> set pre. f y < f w) \<and>
           (\<forall>y \<in> set post. f y \<le> f w))" by blast
qed

lemma max_loop_wins:
  assumes "\<forall>y \<in> set ys. key y = Inr (Fin (f y))"
  shows "\<exists>w. max_loop key best (Fin b) ys = Inr w \<and> wins f best b ys w"
  using assms
proof (induction ys arbitrary: best b)
  case Nil
  then show ?case by (simp add: wins_def)
next
  case (Cons y ys)
  from Cons.prems have ky: "key y = Inr (Fin (f y))" and rest: "\<forall>z \<in> set ys. key z = Inr (Fin (f z))"
    by simp_all
  show ?case
  proof (cases "b < f y")
    case True
    from Cons.IH[OF rest, of y "f y"] obtain w where
      w: "max_loop key y (Fin (f y)) ys = Inr w" "wins f y (f y) ys w" by blast
    have "max_loop key best (Fin b) (y # ys) = Inr w" using ky True w(1) by simp
    with wins_replace[OF True w(2)] show ?thesis by blast
  next
    case False
    from Cons.IH[OF rest, of best b] obtain w where
      w: "max_loop key best (Fin b) ys = Inr w" "wins f best b ys w" by blast
    have "max_loop key best (Fin b) (y # ys) = Inr w" using ky False w(1) by simp
    with wins_keep[OF False w(2)] show ?thesis by blast
  qed
qed


lemma py_max_split:
  assumes "xs \<noteq> []" "\<forall>y \<in> set xs. key y = Inr (Fin (f y))"
  shows "\<exists>w pre post. py_max key xs = Inr w \<and> xs = pre @ w # post \<and>
           (\<forall>y \<in> set pre. f y < f w) \<and> (\<forall>y \<in> set post. f y \<le> f w)"
proof -
  from assms(1) obtain x ys where xs: "xs = x # ys" by (cases xs) auto
  have kx: "key x = Inr (Fin (f x))" and rest: "\<forall>y \<in> set ys. key y = Inr (Fin (f y))"
    using assms(2) xs by simp_all
  from max_loop_wins[OF rest, of x "f x"] obtain w where
    w: "max_loop key x (Fin (f x)) ys = Inr w" "wins f x (f x) ys w" by blast
  have r: "py_max key xs = Inr w" using xs kx w(1) by (simp add: py_max_def)
  from w(2) show ?thesis unfolding wins_def
  proof (elim disjE exE conjE)
    assume a: "w = x" "\<forall>y \<in> set ys. f y \<le> f x"
    have 1: "xs = [] @ w # ys" using xs a(1) by simp
    have 2: "\<forall>y \<in> set []. f y < f w" by simp
    have 3: "\<forall>y \<in> set ys. f y \<le> f w" using a by simp
    from r 1 2 3 show ?thesis by blast
  next
    fix pre post
    assume a: "ys = pre @ w # post" "f x < f w" "\<forall>y \<in> set pre. f y < f w"
      "\<forall>y \<in> set post. f y \<le> f w"
    have 1: "xs = (x # pre) @ w # post" using xs a(1) by simp
    have 2: "\<forall>y \<in> set (x # pre). f y < f w" using a(2,3) by simp
    from r 1 2 a(4) show ?thesis by blast
  qed
qed

lemma map_of_nth_distinct:
  "distinct (map fst d) \<Longrightarrow> j < length d \<Longrightarrow> map_of d (fst (d ! j)) = Some (snd (d ! j))"
  by (metis map_of_eq_Some_iff nth_mem prod.collapse)

text \<open>
  Claim C1. On a results dict (distinct names, at least one entry) whose test scores are
  numbers \<open>rs\<close>, the name the selection returns sits at a position \<open>i\<close> whose score
  is the largest of all, and every earlier position has a strictly smaller score: the
  winner is the first of the estimators with the maximal test score.
\<close>

theorem find_best_model_stable_argmax:
  assumes ne: "res \<noteq> []"
    and dist: "distinct (keys res)"
    and fin: "map (\<lambda>(k, r). Test_R2 r) res = map Fin rs"
  shows "\<exists>i < length res. find_best_model res = Inr (keys res ! i) \<and>
           (\<forall>j < length res. rs ! j \<le> rs ! i) \<and> (\<forall>j < i. rs ! j < rs ! i)"
proof -
  define f where "f k = (case map_of res k of Some r \<Rightarrow> (case Test_R2 r of Fin x \<Rightarrow> x | _ \<Rightarrow> 0) | None \<Rightarrow> 0)" for k
  define key where "key = (\<lambda>k. case dict_get res k of Inl e \<Rightarrow> Inl e | Inr r \<Rightarrow> Inr (Test_R2 r))"
  have len: "length rs = length res" using fin by (metis length_map)
  have tr: "Test_R2 (snd (res ! j)) = Fin (rs ! j)" if "j < length res" for j
  proof -
    have "map (\<lambda>(k, r). Test_R2 r) res ! j = map Fin rs ! j" using fin by simp
    then show ?thesis using that len by (simp add: case_prod_beta)
  qed
  have fj: "f (keys res ! j) = rs ! j" and kj: "key (keys res ! j) = Inr (Fin (rs ! j))"
    if "j < length res" for j
  proof -
    have m: "map_of res (fst (res ! j)) = Some (snd (res ! j))"
      using map_of_nth_distinct dist that by (simp add: keys_def)
    show "f (keys res ! j) = rs ! j" using m tr[OF that] that by (simp add: f_def keys_def)
    show "key (keys res ! j) = Inr (Fin (rs ! j))"
      using m tr[OF that] that by (simp add: key_def dict_get_def keys_def)
  qed
  have allk: "\<forall>k \<in> set (keys res). key k = Inr (Fin (f k))"
  proof
    fix k assume "k \<in> set (keys res)"
    then obtain j where j: "j < length (keys res)" "keys res ! j = k" by (auto simp: in_set_conv_nth)
    then have "j < length res" by (simp add: keys_def)
    from fj[OF this] kj[OF this] j(2) show "key k = Inr (Fin (f k))" by simp
  qed
  have kne: "keys res \<noteq> []" using ne by (simp add: keys_def)
  from py_max_split[OF kne allk] obtain w pre post where
    w: "py_max key (keys res) = Inr w" "keys res = pre @ w # post"
       "\<forall>y \<in> set pre. f y < f w" "\<forall>y \<in> set post. f y \<le> f w" by blast
  let ?i = "length pre"
  have lk: "length (keys res) = length res" by (simp add: keys_def)
  have "length (keys res) = length (pre @ w # post)" using w(2) by simp
  then have i: "?i < length res" using lk by simp
  have wi: "keys res ! ?i = w" using w(2) by simp
  have fw: "f w = rs ! ?i" using fj[OF i] wi by simp
  have best: "find_best_model res = Inr (keys res ! ?i)"
    using w(1) wi by (simp add: find_best_model_def key_def)
  have le: "rs ! j \<le> rs ! ?i" if "j < length res" for j
  proof -
    have "keys res ! j \<in> set (keys res)" using that lk by simp
    then have "keys res ! j \<in> set pre \<or> keys res ! j = w \<or> keys res ! j \<in> set post"
      using w(2) by auto
    then have "f (keys res ! j) \<le> f w" using w(3,4) by (auto simp: less_imp_le)
    then show ?thesis using fj[OF that] fw by simp
  qed
  have lt: "rs ! j < rs ! ?i" if "j < ?i" for j
  proof -
    have jl: "j < length res" using that i by simp
    have "keys res ! j = pre ! j" using w(2) that by (simp add: nth_append)
    then have "keys res ! j \<in> set pre" using that by simp
    then have "f (keys res ! j) < f w" using w(3) by blast
    then show ?thesis using fj[OF jl] fw by simp
  qed
  from i best le lt show ?thesis by blast
qed

theorem find_best_model_stable_argmax_witness:
  "find_best_model tied_results = Inr ''Ridge''"
proof -
  let ?rs = "[1 / 2, 3 / 4, 3 / 4] :: real list"
  have ne: "tied_results \<noteq> []" by (simp add: tied_results_def)
  have d: "distinct (keys tied_results)" by (simp add: tied_results_def keys_def)
  have f: "map (\<lambda>(k, r). Test_R2 r) tied_results = map Fin ?rs"
    by (simp add: tied_results_def)
  from find_best_model_stable_argmax[OF ne d f] obtain i where
    i: "i < length tied_results" "find_best_model tied_results = Inr (keys tied_results ! i)"
       "\<forall>j < length tied_results. ?rs ! j \<le> ?rs ! i" "\<forall>j < i. ?rs ! j < ?rs ! i"
    by blast
  have cases: "i = 0 \<or> i = 1 \<or> i = 2" using i(1) by (auto simp: tied_results_def)
  have n0: "i \<noteq> 0"
  proof
    assume "i = 0"
    have "(1::nat) < length tied_results" by (simp add: tied_results_def)
    with i(3) have "?rs ! 1 \<le> ?rs ! i" by blast
    with \<open>i = 0\<close> show False by simp
  qed
  have n2: "i \<noteq> 2"
  proof
    assume "i = 2"
    then have "(1::nat) < i" by simp
    with i(4) have "?rs ! 1 < ?rs ! i" by blast
    with \<open>i = 2\<close> show False by simp
  qed
  from cases n0 n2 have "i = 1" by blast
  with i(2) show ?thesis by (simp add: tied_results_def keys_def)
qed

text \<open>
  Claim C7. The results dict of the four estimators, in the order of the \<^verbatim>\<open>models\<close>
  dict, with test scores in which ridge's is strictly the largest: the selection
  returns ridge.
\<close>

theorem ridge_selected:
  assumes names: "keys res = keys initial_models"
    and scores: "map (\<lambda>(k, r). Test_R2 r) res = map Fin [r_lin, r_ridge, r_lasso, r_enet]"
    and "r_lin < r_ridge" "r_lasso < r_ridge" "r_enet < r_ridge"
  shows "find_best_model res = Inr ''Ridge''"
proof -
  from names obtain m1 m2 m3 m4 where res:
    "res = [(''Linear Regression'', m1), (''Ridge'', m2), (''Lasso'', m3), (''ElasticNet'', m4)]"
    by (auto simp: keys_def initial_models_def map_eq_Cons_conv)
  from scores res have
    "Test_R2 m1 = Fin r_lin" "Test_R2 m2 = Fin r_ridge" "Test_R2 m3 = Fin r_lasso"
    "Test_R2 m4 = Fin r_enet" by simp_all
  with assms(3-5) show ?thesis
    by (simp add: res find_best_model_def py_max_def keys_def dict_get_def)
qed

theorem ridge_selected_witness:
  "find_best_model reported_results = Inr ''Ridge''"
  using ridge_selected[of reported_results "9668 / 10000" "9672 / 10000" "5398 / 10000"
      "7694 / 10000"]
  by (simp add: reported_results_def keys_def initial_models_def)

section \<open>The comparison loop\<close>


lemma keeps_fit:
  assumes "keeps_arguments fit predict" "fit m X y = (outcome, X1, y1)"
  shows "X1 = X \<and> y1 = y"
proof -
  from assms(1) have "snd (fit m X y) = (X, y)" by (simp add: keeps_arguments_def)
  with assms(2) show ?thesis by simp
qed

lemma keeps_predict:
  assumes "keeps_arguments fit predict" "predict m X = (ys, X1)"
  shows "X1 = X"
proof -
  from assms(1) have "snd (predict m X) = X" by (simp add: keeps_arguments_def)
  with assms(2) show ?thesis by simp
qed

lemma evaluate_model_frame:
  assumes keeps: "keeps_arguments fit predict"
    and ev: "evaluate_model fit predict mape s name model = (s', err)"
  shows "X_train s' = X_train s \<and> y_train s' = y_train s \<and> X_test s' = X_test s \<and>
         y_test s' = y_test s \<and> files s' = files s \<and> can_open s' = can_open s"
proof -
  obtain outcome X1 y1 where f: "fit model (X_train s) (y_train s) = (outcome, X1, y1)"
    by (cases "fit model (X_train s) (y_train s)")
  from keeps_fit[OF keeps f] have x1: "X1 = X_train s" "y1 = y_train s" by simp_all
  show ?thesis
  proof (cases outcome)
    case (Inl e)
    with ev f x1 show ?thesis by (auto simp: evaluate_model_def)
  next
    case (Inr fitted)
    obtain p1 X2 where p1: "predict fitted (X_train s) = (p1, X2)"
      by (cases "predict fitted (X_train s)")
    obtain p2 X3 where p2: "predict fitted (X_test s) = (p2, X3)"
      by (cases "predict fitted (X_test s)")
    from keeps_predict[OF keeps p1] keeps_predict[OF keeps p2]
    have x2: "X2 = X_train s" "X3 = X_test s" by simp_all
    from ev f x1 Inr p1 p2 x2 show ?thesis
      by (auto simp: evaluate_model_def Let_def split: sum.splits)
  qed
qed

lemma train_and_evaluate_frame:
  assumes keeps: "keeps_arguments fit predict"
    and run: "train_and_evaluate fit predict mape s ms = (s', err)"
  shows "X_train s' = X_train s \<and> y_train s' = y_train s \<and> X_test s' = X_test s \<and>
         y_test s' = y_test s \<and> files s' = files s \<and> can_open s' = can_open s"
  using run
proof (induction ms arbitrary: s)
  case Nil
  then show ?case by simp
next
  case (Cons a ms)
  obtain name model where a: "a = (name, model)" by (cases a)
  obtain s1 e1 where ev: "evaluate_model fit predict mape s name model = (s1, e1)"
    by (cases "evaluate_model fit predict mape s name model")
  note fr = evaluate_model_frame[OF keeps ev]
  show ?case
  proof (cases e1)
    case None
    with Cons.prems a ev have "train_and_evaluate fit predict mape s1 ms = (s', err)" by simp
    from Cons.IH[OF this] fr show ?thesis by simp
  next
    case (Some e)
    with Cons.prems a ev have "s' = s1" by simp
    with fr show ?thesis by simp
  qed
qed







lemma example_keeps: "keeps_arguments example_fit example_predict"
  by (simp add: keeps_arguments_def example_fit_def example_predict_def)

lemmas metric_defs = calculate_metrics_def mean_squared_error_def mean_absolute_error_def
      r2_score_def check_reg_targets_def average_def sq_errors_def abs_errors_def

lemma example_train_metrics:
  "\<exists>b. calculate_metrics mape [1, 3] [1, 2] = Inr b \<and> R2 b = Fin (1 / 2)"
  by (simp add: metric_defs Let_def power2_eq_square)

lemma example_test_metrics:
  "calculate_metrics mape [1, 3] [1, 3] =
     Inr \<lparr>R2 = Fin 1, RMSE = Fin 0, MAE = Fin 0, MAPE = mape [1, 3] [1, 3]\<rparr>"
  by (simp add: metric_defs Let_def)




section \<open>What the cells change\<close>

lemma compare_cell_files:
  assumes keeps: "keeps_arguments fit predict"
    and cell: "compare_cell fit predict mape new_model s = (s', err)"
  shows "X_train s' = X_train s \<and> y_train s' = y_train s \<and> X_test s' = X_test s \<and>
         y_test s' = y_test s \<and> files s' = files s \<and> can_open s' = can_open s"
proof -
  let ?s0 = "s\<lparr>models := map (\<lambda>(name, e). (name, new_model e)) initial_models,
                 results := [], predictions := []\<rparr>"
  obtain s1 e1 where run: "train_and_evaluate fit predict mape ?s0 (models ?s0) = (s1, e1)"
    by (cases "train_and_evaluate fit predict mape ?s0 (models ?s0)")
  from train_and_evaluate_frame[OF keeps run]
  have fr: "X_train s1 = X_train s \<and> y_train s1 = y_train s \<and> X_test s1 = X_test s \<and>
         y_test s1 = y_test s \<and> files s1 = files s \<and> can_open s1 = can_open s" by simp
  have "X_train s' = X_train s1 \<and> y_train s' = y_train s1 \<and> X_test s' = X_test s1 \<and>
         y_test s' = y_test s1 \<and> files s' = files s1 \<and> can_open s' = can_open s1"
    using cell run
    by (auto simp: compare_cell_def Let_def split: option.splits sum.splits)
  with fr show ?thesis by simp
qed

lemma compare_cell_best:
  assumes "compare_cell fit predict mape new_model s = (s', None)"
  shows "\<exists>m. best_model s' = Some m"
proof -
  let ?s0 = "s\<lparr>models := map (\<lambda>(name, e). (name, new_model e)) initial_models,
                 results := [], predictions := []\<rparr>"
  obtain s1 e1 where run: "train_and_evaluate fit predict mape ?s0 (models ?s0) = (s1, e1)"
    by (cases "train_and_evaluate fit predict mape ?s0 (models ?s0)")
  show ?thesis using assms run
    by (auto simp: compare_cell_def Let_def split: option.splits sum.splits)
qed

text \<open>
  The condition on the library is needed: a fit that works in place changes the
  training matrix of the notebook.
\<close>

lemma evaluate_model_clearing_fit:
  "X_train (fst (evaluate_model clearing_fit example_predict mape example_notebook
      ''Ridge'' (Ridge 1))) = [] \<and> X_train example_notebook \<noteq> []"
  by (simp add: evaluate_model_def clearing_fit_def example_predict_def example_notebook_def
      Let_def split: sum.splits)

text \<open>
  Claim C8. With library calls that leave their arrays as they are, the comparison cell,
  whether it ends normally or with an exception, leaves the four data variables and the
  file system as they were: it changes only the dicts of estimators, results and
  predictions and the two winner variables. When it ends normally the winner is set, and
  it is the separate saving cell, run afterwards, that writes that object to
  \<open>model_path\<close>; where the system does not let the file be opened, the saving cell ends
  with an OSError and writes nothing.
\<close>

theorem compare_cell_frame:
  assumes keeps: "keeps_arguments fit predict"
    and cell: "compare_cell fit predict mape new_model s = (s', err)"
  shows "X_train s' = X_train s \<and> y_train s' = y_train s \<and> X_test s' = X_test s \<and>
         y_test s' = y_test s \<and> files s' = files s \<and> can_open s' = can_open s \<and>
         (err = None \<longrightarrow>
            (\<exists>m. best_model s' = Some m \<and>
                 save_cell s' =
                   (if can_open s model_path
                    then (s'\<lparr>files := (files s)(model_path \<mapsto> Pickled m)\<rparr>, None)
                    else (s', Some OSError))))"
proof -
  note fr = compare_cell_files[OF keeps cell]
  have "\<exists>m. best_model s' = Some m \<and>
                 save_cell s' =
                   (if can_open s model_path
                    then (s'\<lparr>files := (files s)(model_path \<mapsto> Pickled m)\<rparr>, None)
                    else (s', Some OSError))"
    if "err = None"
  proof -
    from cell that compare_cell_best obtain m where m: "best_model s' = Some m" by blast
    then have "save_cell s' =
                   (if can_open s model_path
                    then (s'\<lparr>files := (files s)(model_path \<mapsto> Pickled m)\<rparr>, None)
                    else (s', Some OSError))"
      using fr by (simp add: save_cell_def Let_def)
    with m show ?thesis by blast
  qed
  with fr show ?thesis by blast
qed

lemma example_evaluate:
  "evaluate_model example_fit example_predict mape_line
     (example_notebook\<lparr>models := ms, results := rs, predictions := ps\<rparr>) name model =
   (example_notebook\<lparr>models := dict_set ms name model,
      results := dict_set rs name
        \<lparr>Train_R2 = Fin (1 / 2), Test_R2 = Fin 1, Test_RMSE = Fin 0, Test_MAE = Fin 0,
         Overfitting = Fin (- (1 / 2))\<rparr>,
      predictions := dict_set ps name [1, 3]\<rparr>, None)"
proof -
  from example_train_metrics[of mape_line] obtain b where
    b: "calculate_metrics mape_line [1, 3] [1, 2] = Inr b" "R2 b = Fin (1 / 2)" by blast
  show ?thesis
    unfolding evaluate_model_def example_fit_def example_predict_def example_notebook_def
    by (simp add: b example_test_metrics)
qed

lemma example_compare:
  "compare_cell example_fit example_predict mape_line id example_notebook =
     (example_notebook\<lparr>models := initial_models,
        results := map (\<lambda>(name, e). (name,
          \<lparr>Train_R2 = Fin (1 / 2), Test_R2 = Fin 1, Test_RMSE = Fin 0, Test_MAE = Fin 0,
           Overfitting = Fin (- (1 / 2))\<rparr>)) initial_models,
        predictions := map (\<lambda>(name, e). (name, [1, 3])) initial_models,
        best_model_name := Some ''Linear Regression'',
        best_model := Some LinearRegression\<rparr>, None)"
proof -
  have s0: "example_notebook\<lparr>models := ms, results := [], predictions := []\<rparr> =
        example_notebook\<lparr>models := ms\<rparr>" for ms
    by (simp add: example_notebook_def)
  show ?thesis
    by (simp add: compare_cell_def initial_models_def example_evaluate
      find_best_model_def py_max_def keys_def dict_get_def)
qed

theorem compare_cell_frame_witness:
  "X_train (fst (compare_cell example_fit example_predict mape_line id example_notebook))
     = [[1], [2]] \<and>
   files (fst (compare_cell example_fit example_predict mape_line id example_notebook))
     = Map.empty \<and>
   files (fst (save_cell (fst (compare_cell example_fit example_predict mape_line id
       example_notebook)))) = [model_path \<mapsto> Pickled LinearRegression]"
proof -
  let ?run = "compare_cell example_fit example_predict mape_line id example_notebook"
  have run: "?run = (fst ?run, snd ?run)" by simp
  have ok: "snd ?run = None" by (simp add: example_compare)
  have bm: "best_model (fst ?run) = Some LinearRegression" by (simp add: example_compare)
  from compare_cell_frame[OF example_keeps run] ok bm
  have "X_train (fst ?run) = X_train example_notebook"
    "files (fst ?run) = files example_notebook"
    "save_cell (fst ?run) =
       (if can_open example_notebook model_path
        then ((fst ?run)\<lparr>files := (files example_notebook)(model_path \<mapsto> Pickled LinearRegression)\<rparr>, None)
        else (fst ?run, Some OSError))"
    by auto
  then show ?thesis by (simp add: example_notebook_def)
qed

section \<open>The feature-importance ranking\<close>

lemma mset_insert_desc: "mset (insert_desc r xs) = add_mset r (mset xs)"
  by (induction xs) auto

lemma set_insert_desc: "set (insert_desc r xs) = insert r (set xs)"
  by (induction xs) auto

lemma sorted_insert_desc:
  "sorted_wrt (\<lambda>a b. Abs_Coefficient a \<ge> Abs_Coefficient b) xs \<Longrightarrow>
   sorted_wrt (\<lambda>a b. Abs_Coefficient a \<ge> Abs_Coefficient b) (insert_desc r xs)"
  by (induction xs) (auto simp: set_insert_desc)

lemma mset_stable_sort_values: "mset (stable_sort_values rows) = mset rows"
  by (induction rows) (simp_all add: stable_sort_values_def mset_insert_desc)

lemma sorted_stable_sort_values:
  "sorted_wrt (\<lambda>a b. Abs_Coefficient a \<ge> Abs_Coefficient b) (stable_sort_values rows)"
  by (induction rows) (simp_all add: stable_sort_values_def sorted_insert_desc)

lemma stable_sort_values_ok: "sorts_descending stable_sort_values"
  by (simp add: sorts_descending_def mset_stable_sort_values sorted_stable_sort_values)

lemma data_frame_rows:
  assumes "data_frame feature_names coefficients = Inr df" "r \<in> set df"
  shows "Abs_Coefficient r = \<bar>Coefficient r\<bar> \<and> Coefficient r \<in> set coefficients"
proof -
  from assms obtain n c where "(n, c) \<in> set (zip feature_names coefficients)"
    "r = \<lparr>Feature = n, Coefficient = c, Abs_Coefficient = \<bar>c\<bar>\<rparr>"
    by (auto simp: data_frame_def split: if_splits)
  then show ?thesis by (auto dest: set_zip_rightD)
qed

lemma sorts_descending_set: "sorts_descending sv \<Longrightarrow> set (sv rows) = set rows"
  unfolding sorts_descending_def by (metis mset_eq_setD)

section \<open>The summary lines\<close>

lemma two_rows_descending:
  assumes ok: "sorts_descending sv" and lt: "Abs_Coefficient ra < Abs_Coefficient rb"
  shows "sv [ra, rb] = [rb, ra]"
proof -
  have m: "mset (sv [ra, rb]) = mset [ra, rb]" using ok by (simp add: sorts_descending_def)
  have s: "sorted_wrt (\<lambda>a b. Abs_Coefficient a \<ge> Abs_Coefficient b) (sv [ra, rb])"
    using ok by (simp add: sorts_descending_def)
  from m have "length (sv [ra, rb]) = 2" by (metis mset_eq_length length_Cons list.size(3) numeral_2_eq_2)
  then obtain u v where uv: "sv [ra, rb] = [u, v]"
    by (auto simp: length_Suc_conv numeral_2_eq_2)
  from m uv have "set [u, v] = set [ra, rb]" by (metis mset_eq_setD)
  with lt have "(u = ra \<and> v = rb) \<or> (u = rb \<and> v = ra)"
    by (auto simp: doubleton_eq_iff)
  moreover from s uv have "Abs_Coefficient u \<ge> Abs_Coefficient v" by simp
  ultimately show ?thesis using lt uv by auto
qed

text \<open>
  Claim C3 fails on the code. On the features \<open>a\<close>, \<open>b\<close> with coefficients 1 and -5
  the line ``Strongest positive predictor'' reports \<open>b\<close> with -5, the first row of the
  ranking by magnitude, not \<open>a\<close> with 1, and the line ``Strongest negative predictor''
  reports the same row.
\<close>

theorem strongest_positive_by_magnitude:
  assumes "sorts_descending sort_values"
  shows "\<exists>sm. feature_cell sort_values [''a'', ''b''] [1, - 5] = Inr sm \<and>
           strongest_positive sm = Some (''b'', - 5) \<and>
           strongest_negative sm = Some (''b'', - 5)"
  by (simp add: feature_cell_def feature_importance_def data_frame_def iloc0_def Let_def
      two_rows_descending[OF assms])

theorem strongest_positive_by_magnitude_witness:
  "\<exists>sm. feature_cell stable_sort_values [''a'', ''b''] [1, - 5] = Inr sm \<and>
           strongest_positive sm = Some (''b'', - 5) \<and>
           strongest_negative sm = Some (''b'', - 5)"
  by (rule strongest_positive_by_magnitude[OF stable_sort_values_ok])

lemma data_frame_covers:
  assumes "data_frame feature_names coefficients = Inr df" "c \<in> set coefficients"
  shows "\<exists>r \<in> set df. Coefficient r = c"
proof -
  from assms(1) have len: "length feature_names = length coefficients"
    and df: "df = map (\<lambda>(n, c). \<lparr>Feature = n, Coefficient = c, Abs_Coefficient = \<bar>c\<bar>\<rparr>)
                  (zip feature_names coefficients)"
    by (auto simp: data_frame_def split: if_splits)
  from assms(2) obtain i where i: "i < length coefficients" "coefficients ! i = c"
    by (auto simp: in_set_conv_nth)
  have "i < length df" using i(1) len df by simp
  then have "df ! i \<in> set df" by (rule nth_mem)
  moreover have "Coefficient (df ! i) = c" using i len df by simp
  ultimately show ?thesis by blast
qed

lemma strongest_negative_minimal:
  assumes ok: "sorts_descending sort_values"
    and cell: "feature_cell sort_values feature_names coefficients = Inr sm"
    and neg: "strongest_negative sm = Some (n, c)"
  shows "c < 0 \<and> (\<forall>c' \<in> set coefficients. c \<le> c')"
proof -
  let ?P = "\<lambda>r. Coefficient r < 0"
  from cell obtain df where df: "data_frame feature_names coefficients = Inr df"
    by (auto simp: feature_cell_def feature_importance_def split: sum.splits)
  let ?fi = "sort_values df"
  from cell neg df obtain r rest where
    flt: "filter ?P ?fi = r # rest" and rc: "Coefficient r = c"
    by (auto simp: feature_cell_def feature_importance_def iloc0_def Let_def
        split: sum.splits if_splits list.splits)
  have rin: "r \<in> set (filter ?P ?fi)" using flt by simp
  then have c0: "c < 0" using rc by simp
  have setfi: "set ?fi = set df" by (rule sorts_descending_set[OF ok])
  have "sorted_wrt (\<lambda>a b. Abs_Coefficient a \<ge> Abs_Coefficient b) ?fi"
    using ok by (simp add: sorts_descending_def)
  then have "sorted_wrt (\<lambda>a b. Abs_Coefficient a \<ge> Abs_Coefficient b) (filter ?P ?fi)"
    by (rule sorted_wrt_filter)
  then have first: "\<forall>x \<in> set rest. Abs_Coefficient r \<ge> Abs_Coefficient x"
    using flt by simp
  have absr: "Abs_Coefficient x = \<bar>Coefficient x\<bar>" if "x \<in> set ?fi" for x
    using that data_frame_rows[OF df] setfi by blast
  have "c \<le> c'" if c': "c' \<in> set coefficients" for c'
  proof (cases "c' < 0")
    case False
    with c0 show ?thesis by simp
  next
    case True
    from data_frame_covers[OF df c'] obtain x where x: "x \<in> set df" "Coefficient x = c'"
      by blast
    then have xin: "x \<in> set (filter ?P ?fi)" using True setfi by simp
    then have "x = r \<or> x \<in> set rest" using flt by simp
    then have "Abs_Coefficient r \<ge> Abs_Coefficient x" using first by auto
    moreover have "r \<in> set ?fi" using rin by simp
    moreover have "x \<in> set ?fi" using xin by simp
    ultimately have "\<bar>c\<bar> \<ge> \<bar>c'\<bar>" using absr rc x(2) by simp
    with c0 True show ?thesis by simp
  qed
  with c0 show ?thesis by blast
qed

lemma count_true_filter: "count_true (map P xs) = length (filter P xs)"
  by (induction xs) (simp_all add: count_true_def)

text \<open>
  Claim C9. The two impact counts of the summary are the numbers of strictly positive
  and of strictly negative coefficients; together with the number of coefficients equal
  to zero they add up to the number of coefficients.
\<close>

theorem impact_counts:
  assumes "feature_cell sort_values feature_names coefficients = Inr sm"
  shows "positive_impact sm = length (filter (\<lambda>c. 0 < c) coefficients) \<and>
         negative_impact sm = length (filter (\<lambda>c. c < 0) coefficients) \<and>
         positive_impact sm + negative_impact sm + length (filter (\<lambda>c. c = 0) coefficients)
           = length coefficients"
proof -
  have cnt: "length (filter (\<lambda>c. 0 < c) cs) + length (filter (\<lambda>c. c < 0) cs)
              + length (filter (\<lambda>c. c = 0) cs) = length cs" for cs :: "real list"
    by (induction cs) auto
  from assms have "positive_impact sm = count_true (map (\<lambda>c. c > 0) coefficients) \<and>
     negative_impact sm = count_true (map (\<lambda>c. c < 0) coefficients)"
    by (auto simp: feature_cell_def Let_def split: sum.splits if_splits)
  then show ?thesis using cnt[of coefficients] by (simp add: count_true_filter)
qed


theorem impact_counts_witness:
  "\<exists>sm. feature_cell stable_sort_values [''a'', ''b'', ''c''] [2, 0, - 1] = Inr sm \<and>
     positive_impact sm = 1 \<and> negative_impact sm = 1"
proof -
  obtain sm where sm: "feature_cell stable_sort_values [''a'', ''b'', ''c''] [2, 0, - 1] = Inr sm"
    by (simp add: feature_cell_def feature_importance_def data_frame_def iloc0_def Let_def
        stable_sort_values_def)
  from impact_counts[OF sm] have "positive_impact sm = 1 \<and> negative_impact sm = 1" by simp
  with sm show ?thesis by blast
qed


lemma feature_cell_no_index_error:
  "feature_cell sort_values feature_names coefficients \<noteq> Inl IndexError"
  by (auto simp: feature_cell_def feature_importance_def data_frame_def iloc0_def Let_def
      split: sum.splits list.splits if_splits)

text \<open>
  Claim C10. When no coefficient is strictly negative (and there are as many names as
  coefficients), the cell ends normally and its summary has no ``Strongest negative
  predictor'' line. Whatever the input, the cell never ends in an IndexError: both
  \<^verbatim>\<open>.iloc[0]\<close> reads sit behind a check that the frame they read is not empty.
\<close>

theorem no_negative_coefficient:
  assumes ok: "sorts_descending sort_values"
    and len: "length feature_names = length coefficients"
    and nonneg: "\<forall>c \<in> set coefficients. 0 \<le> c"
  shows "(\<exists>sm. feature_cell sort_values feature_names coefficients = Inr sm \<and>
              strongest_negative sm = None) \<and>
         feature_cell sort_values feature_names coefficients \<noteq> Inl IndexError"
proof -
  let ?df = "map (\<lambda>(n, c). \<lparr>Feature = n, Coefficient = c, Abs_Coefficient = \<bar>c\<bar>\<rparr>)
                            (zip feature_names coefficients)"
  have df: "data_frame feature_names coefficients = Inr ?df" using len by (simp add: data_frame_def)
  then have fi: "feature_importance sort_values feature_names coefficients = Inr (sort_values ?df)"
    by (simp add: feature_importance_def)
  have "\<not> Coefficient r < 0" if "r \<in> set (sort_values ?df)" for r
  proof -
    from that have "Coefficient r \<in> set coefficients"
      using data_frame_rows[OF df] sorts_descending_set[OF ok] by blast
    with nonneg show ?thesis by auto
  qed
  then have empty: "filter (\<lambda>r. Coefficient r < 0) (sort_values ?df) = []"
    by (simp add: filter_empty_conv)
  have "\<exists>sm. feature_cell sort_values feature_names coefficients = Inr sm \<and>
              strongest_negative sm = None"
  proof (cases "sort_values ?df")
    case Nil
    then show ?thesis by (simp add: feature_cell_def fi Let_def)
  next
    case (Cons r rest)
    with empty have "\<not> Coefficient r < 0" "filter (\<lambda>r. Coefficient r < 0) rest = []"
      by (simp_all split: if_splits)
    with Cons show ?thesis by (simp add: feature_cell_def fi iloc0_def Let_def)
  qed
  with feature_cell_no_index_error show ?thesis by blast
qed

theorem no_negative_coefficient_witness:
  "\<exists>sm. feature_cell stable_sort_values [''a'', ''b''] [2, 0] = Inr sm \<and>
              strongest_negative sm = None"
  using no_negative_coefficient[OF stable_sort_values_ok, of "[''a'', ''b'']" "[2, 0]"]
  by simp

section \<open>The names in the results dict\<close>

lemma keys_dict_set_new: "k \<notin> set (keys d) \<Longrightarrow> keys (dict_set d k v) = keys d @ [k]"
  by (induction d) (auto simp: keys_def)

lemma evaluate_model_results:
  assumes "evaluate_model fit predict mape s name model = (s', None)"
  shows "\<exists>r. results s' = dict_set (results s) name r"
  using assms
  by (auto simp: evaluate_model_def Let_def split: sum.splits prod.splits)

lemma train_and_evaluate_keys:
  assumes "train_and_evaluate fit predict mape s ms = (s', None)"
    and "distinct (keys (results s) @ keys ms)"
  shows "keys (results s') = keys (results s) @ keys ms"
  using assms
proof (induction ms arbitrary: s)
  case Nil
  then show ?case by (simp add: keys_def)
next
  case (Cons a ms)
  obtain name model where a: "a = (name, model)" by (cases a)
  obtain s1 e1 where ev: "evaluate_model fit predict mape s name model = (s1, e1)"
    by (cases "evaluate_model fit predict mape s name model")
  from Cons.prems(1) a ev have e1: "e1 = None"
    by (cases e1) simp_all
  with Cons.prems(1) a ev have run: "train_and_evaluate fit predict mape s1 ms = (s', None)"
    by simp
  from ev e1 have "evaluate_model fit predict mape s name model = (s1, None)" by simp
  from evaluate_model_results[OF this] obtain r where
    "results s1 = dict_set (results s) name r" by blast
  moreover have "name \<notin> set (keys (results s))" using Cons.prems(2) a by (auto simp: keys_def)
  ultimately have k1: "keys (results s1) = keys (results s) @ [name]"
    by (simp add: keys_dict_set_new)
  have "distinct (keys (results s1) @ keys ms)" using Cons.prems(2) a k1 by (auto simp: keys_def)
  from Cons.IH[OF run this] k1 a show ?case by (simp add: keys_def)
qed


end
